theory Spec2Isabelle
  imports Complex_Main "HOL-Library.Sublist" "HOL-Library.Multiset"
begin

section \<open>Settings and time\<close>

text \<open>
  The rule-engine part of \<open>app/config.py\<close>. Python floats are modelled as exact
  reals; rounding is modelled for the cosine similarity only, in
  \<open>cosine_similarity_double\<close>. Overflow and NaN are outside this development.
\<close>

record settings =
  confidence_threshold :: real
  decay_rate :: real
  archive_threshold :: real
  similarity_threshold :: real

definition default_settings :: settings where
  "default_settings =
     \<lparr>confidence_threshold = 0.3, decay_rate = 0.05,
      archive_threshold = 0.2, similarity_threshold = 0.85\<rparr>"

text \<open>
  A naive \<open>datetime\<close> is the number of microseconds since the epoch, a \<open>timedelta\<close>
  their difference. \<open>timedelta.days\<close> is the floor of the difference in days (a
  negative difference has negative days), which is what \<open>div\<close> on \<open>int\<close> computes.
  \<open>datetime.utcnow()\<close> is the explicit argument \<open>now\<close>.
\<close>

type_synonym datetime = int

definition microseconds_per_day :: int where
  "microseconds_per_day = 86400000000"

definition timedelta_days :: "datetime \<Rightarrow> datetime \<Rightarrow> int" where
  "timedelta_days now t = (now - t) div microseconds_per_day"

definition timedelta_hours :: "int \<Rightarrow> int" where
  "timedelta_hours h = h * 3600000000"

section \<open>Scoring primitives (\<open>app/core/algorithms.py\<close>)\<close>

definition calculate_confidence ::
  "settings \<Rightarrow> datetime \<Rightarrow> real \<Rightarrow> int \<Rightarrow> datetime option \<Rightarrow> datetime option \<Rightarrow> real" where
  "calculate_confidence cfg now base_confidence times_reinforced last_applied_at last_reinforced_at =
     (let reinforcement_bonus = min (real_of_int times_reinforced * 0.1) 0.45;
          decay_penalty =
            (case last_applied_at of
               None \<Rightarrow> 0
             | Some t \<Rightarrow>
                 (let days_since_use = timedelta_days now t;
                      weeks_unused = days_since_use div 7
                  in min (real_of_int weeks_unused * decay_rate cfg) 0.4));
          confidence = base_confidence + reinforcement_bonus - decay_penalty
      in max 0.1 (min 0.95 confidence))"

definition should_archive_rule :: "settings \<Rightarrow> real \<Rightarrow> bool" where
  "should_archive_rule cfg confidence = (confidence < archive_threshold cfg)"

text \<open>
  The decay penalty as the specification words it: whole days elapsed since the last
  application, divided by seven and floored, times the decay rate, capped at \<open>0.4\<close>;
  zero when the rule was never applied.
\<close>

definition spec_decay_penalty :: "settings \<Rightarrow> datetime \<Rightarrow> datetime option \<Rightarrow> real" where
  "spec_decay_penalty cfg now last_applied_at =
     (case last_applied_at of
        None \<Rightarrow> 0
      | Some t \<Rightarrow>
          min (real_of_int \<lfloor>real_of_int (timedelta_days now t) / 7\<rfloor> * decay_rate cfg) 0.4)"


section \<open>Errors\<close>

text \<open>
  The exceptions the modelled code can meet. \<open>ValueError\<close> is what \<open>np.dot\<close> raises on
  one-dimensional arrays of different lengths, \<open>AttributeError\<close> what \<open>result.get\<close>
  raises when the decoded JSON value is not a dict, \<open>ServiceError\<close> any failure of an
  external call (language model, embedding service).
\<close>

datatype error = ValueError | AttributeError | ServiceError

section \<open>Cosine similarity\<close>

definition dot :: "real list \<Rightarrow> real list \<Rightarrow> real" where
  "dot v1 v2 = sum_list (map2 (*) v1 v2)"

definition norm2 :: "real list \<Rightarrow> real" where
  "norm2 v = sqrt (sum_list (map (\<lambda>x. \<bar>x\<bar> ^ 2) v))"

text \<open>
  \<open>np.dot\<close> is evaluated first and raises on a length mismatch, before the norms are
  looked at. Two empty vectors have dot product and norms \<open>0\<close>.
\<close>

definition cosine_similarity :: "real list \<Rightarrow> real list \<Rightarrow> error + real" where
  "cosine_similarity vec1 vec2 =
     (if length vec1 \<noteq> length vec2 then Inl ValueError
      else
        (let dot_product = dot vec1 vec2;
             norm1 = norm2 vec1;
             norm2' = norm2 vec2
         in if norm1 = 0 \<or> norm2' = 0 then Inr 0
            else Inr (dot_product / (norm1 * norm2'))))"







section \<open>Rules as dictionaries\<close>

text \<open>
  The functions of \<open>algorithms.py\<close> take rules as dicts and read them with
  \<open>rule.get\<close>: a key may be missing, which is \<open>None\<close> here. \<open>last_applied_at\<close> may
  be a datetime or its ISO text; both are the instant they denote. The other keys of
  the dict are the record's extension.
\<close>

record rule =
  rule_id :: string
  content :: "string option"
  confidence :: "real option"
  embedding :: "real list option"
  last_applied_at :: "datetime option"
  times_reinforced :: "int option"
  last_reinforced_at :: "datetime option"

text \<open>
  \<open>rule.get("embedding")\<close> used as a condition: a missing key, \<open>None\<close> and the empty
  list are all falsy.
\<close>

definition truthy_embedding :: "real list option \<Rightarrow> bool" where
  "truthy_embedding e = (case e of None \<Rightarrow> False | Some v \<Rightarrow> v \<noteq> [])"

section \<open>Similarity / duplicate detector\<close>

text \<open>
  \<open>threshold or settings.similarity_threshold\<close>: \<open>None\<close> and \<open>0.0\<close> are falsy.
\<close>

definition threshold_or_default :: "settings \<Rightarrow> real option \<Rightarrow> real" where
  "threshold_or_default cfg threshold =
     (case threshold of
        None \<Rightarrow> similarity_threshold cfg
      | Some t \<Rightarrow> if t = 0 then similarity_threshold cfg else t)"

fun find_similar_loop ::
  "real \<Rightarrow> real list \<Rightarrow> 'a rule_scheme list \<Rightarrow> error + 'a rule_scheme option" where
  "find_similar_loop threshold new_rule_embedding [] = Inr None"
| "find_similar_loop threshold new_rule_embedding (rule # rest) =
     (if truthy_embedding (embedding rule) then
        (case cosine_similarity new_rule_embedding (the (embedding rule)) of
           Inl e \<Rightarrow> Inl e
         | Inr similarity \<Rightarrow>
             if similarity \<ge> threshold then Inr (Some rule)
             else find_similar_loop threshold new_rule_embedding rest)
      else find_similar_loop threshold new_rule_embedding rest)"

definition find_similar_rule ::
  "settings \<Rightarrow> real list \<Rightarrow> 'a rule_scheme list \<Rightarrow> real option
     \<Rightarrow> error + 'a rule_scheme option" where
  "find_similar_rule cfg new_rule_embedding existing_rules threshold =
     find_similar_loop (threshold_or_default cfg threshold) new_rule_embedding existing_rules"

text \<open>
  \<open>merge_rules\<close> copies the dict and overwrites three keys; the correction text is not
  used.
\<close>

definition merge_rules :: "datetime \<Rightarrow> 'a rule_scheme \<Rightarrow> string \<Rightarrow> 'a rule_scheme" where
  "merge_rules now existing_rule new_correction =
     existing_rule
       \<lparr>times_reinforced :=
          Some ((case times_reinforced existing_rule of None \<Rightarrow> 0 | Some n \<Rightarrow> n) + 1),
        last_reinforced_at := Some now,
        confidence :=
          Some (min 0.95
            ((case confidence existing_rule of None \<Rightarrow> 0.5 | Some c \<Rightarrow> c) + 0.1))\<rparr>"

section \<open>Rule selector\<close>

text \<open>One pass of the scoring loop body: the relevance (which may raise), the recency
  boost and the score of one rule.\<close>

definition rule_confidence :: "'a rule_scheme \<Rightarrow> real" where
  "rule_confidence rule = (case confidence rule of None \<Rightarrow> 0.5 | Some c \<Rightarrow> c)"

definition relevance_of :: "real list option \<Rightarrow> 'a rule_scheme \<Rightarrow> error + real" where
  "relevance_of context_embedding rule =
     (if truthy_embedding context_embedding \<and> truthy_embedding (embedding rule)
      then cosine_similarity (the context_embedding) (the (embedding rule))
      else Inr 1)"

definition recency_boost :: "datetime \<Rightarrow> 'a rule_scheme \<Rightarrow> real" where
  "recency_boost now rule =
     (case last_applied_at rule of
        None \<Rightarrow> 1
      | Some last_applied \<Rightarrow> if now - last_applied < timedelta_hours 24 then 1.2 else 1)"

fun rank_loop ::
  "settings \<Rightarrow> datetime \<Rightarrow> real list option \<Rightarrow> 'a rule_scheme list
     \<Rightarrow> ('a rule_scheme \<times> real) list \<Rightarrow> error + ('a rule_scheme \<times> real) list" where
  "rank_loop cfg now context_embedding [] scored_rules = Inr scored_rules"
| "rank_loop cfg now context_embedding (rule # rest) scored_rules =
     (let confidence = rule_confidence rule in
      case relevance_of context_embedding rule of
        Inl e \<Rightarrow> Inl e
      | Inr relevance \<Rightarrow>
          (let score = confidence * relevance * recency_boost now rule in
           if confidence \<ge> confidence_threshold cfg
           then rank_loop cfg now context_embedding rest (scored_rules @ [(rule, score)])
           else rank_loop cfg now context_embedding rest scored_rules))"

text \<open>
  \<open>list.sort(key=..., reverse=True)\<close> is a stable sort into descending order of the
  key: elements with equal keys keep their order. That is the stable insertion sort on
  the negated key.
\<close>

definition sort_by_score_desc :: "('r \<times> real) list \<Rightarrow> ('r \<times> real) list" where
  "sort_by_score_desc scored = sort_key (\<lambda>x. - snd x) scored"

text \<open>The slice \<open>xs[:n]\<close>: a negative \<open>n\<close> counts from the end.\<close>

definition slice_to :: "int \<Rightarrow> 'a list \<Rightarrow> 'a list" where
  "slice_to n xs = (if n \<ge> 0 then take (nat n) xs else take (nat (int (length xs) + n)) xs)"

definition rank_rules ::
  "settings \<Rightarrow> datetime \<Rightarrow> 'a rule_scheme list \<Rightarrow> real list option \<Rightarrow> int
     \<Rightarrow> error + ('a rule_scheme \<times> real) list" where
  "rank_rules cfg now rules context_embedding max_rules =
     (case rank_loop cfg now context_embedding rules [] of
        Inl e \<Rightarrow> Inl e
      | Inr scored_rules \<Rightarrow> Inr (slice_to max_rules (sort_by_score_desc scored_rules)))"

definition rule_tokens :: "'a rule_scheme \<Rightarrow> int" where
  "rule_tokens rule = int (length (case content rule of None \<Rightarrow> [] | Some c \<Rightarrow> c)) div 4"

fun select_loop ::
  "int \<Rightarrow> ('a rule_scheme \<times> real) list \<Rightarrow> 'a rule_scheme list \<Rightarrow> int \<Rightarrow> 'a rule_scheme list" where
  "select_loop max_tokens [] selected estimated_tokens = selected"
| "select_loop max_tokens ((rule, score) # rest) selected estimated_tokens =
     (if estimated_tokens + rule_tokens rule > max_tokens then selected
      else select_loop max_tokens rest (selected @ [rule]) (estimated_tokens + rule_tokens rule))"

definition select_rules_for_prompt ::
  "settings \<Rightarrow> datetime \<Rightarrow> 'a rule_scheme list \<Rightarrow> real list option \<Rightarrow> int
     \<Rightarrow> error + 'a rule_scheme list" where
  "select_rules_for_prompt cfg now rules context_embedding max_tokens =
     (case rank_rules cfg now rules context_embedding 10 of
        Inl e \<Rightarrow> Inl e
      | Inr ranked \<Rightarrow> Inr (select_loop max_tokens ranked [] 0))"

text \<open>The estimated token cost of a selection.\<close>

definition token_cost :: "'a rule_scheme list \<Rightarrow> int" where
  "token_cost rs = sum_list (map rule_tokens rs)"


text \<open>
  What the ranking computes for one rule when no similarity computation raises: the
  relevance is the cosine similarity when the context and the rule both have a
  non-empty embedding and \<open>1\<close> otherwise.
\<close>

definition spec_relevance :: "real list option \<Rightarrow> 'a rule_scheme \<Rightarrow> real" where
  "spec_relevance context_embedding rule =
     (case (context_embedding, embedding rule) of
        (Some c, Some e) \<Rightarrow>
          if c \<noteq> [] \<and> e \<noteq> []
          then (case cosine_similarity c e of Inr s \<Rightarrow> s | Inl _ \<Rightarrow> 1)
          else 1
      | _ \<Rightarrow> 1)"

definition spec_score :: "datetime \<Rightarrow> real list option \<Rightarrow> 'a rule_scheme \<Rightarrow> real" where
  "spec_score now context_embedding rule =
     rule_confidence rule * spec_relevance context_embedding rule * recency_boost now rule"

definition eligible :: "settings \<Rightarrow> 'a rule_scheme \<Rightarrow> bool" where
  "eligible cfg rule = (rule_confidence rule \<ge> confidence_threshold cfg)"

definition scored_eligible ::
  "settings \<Rightarrow> datetime \<Rightarrow> real list option \<Rightarrow> 'a rule_scheme list
     \<Rightarrow> ('a rule_scheme \<times> real) list" where
  "scored_eligible cfg now context_embedding rules =
     map (\<lambda>r. (r, spec_score now context_embedding r)) (filter (eligible cfg) rules)"

text \<open>
  The embeddings a similarity computation can meet all have the length \<open>n\<close>: every
  rule embedding that is present and non-empty.
\<close>

definition embeddings_have_length :: "nat \<Rightarrow> 'a rule_scheme list \<Rightarrow> bool" where
  "embeddings_have_length n rules =
     list_all (\<lambda>r. case embedding r of None \<Rightarrow> True | Some e \<Rightarrow> e = [] \<or> length e = n) rules"

text \<open>
  A rule qualifies as similar at threshold \<open>t\<close>: it carries a non-empty embedding whose
  cosine similarity with the candidate is at or above \<open>t\<close>.
\<close>

definition qualifies :: "real \<Rightarrow> real list \<Rightarrow> 'a rule_scheme \<Rightarrow> bool" where
  "qualifies t candidate rule =
     (case embedding rule of
        None \<Rightarrow> False
      | Some e \<Rightarrow>
          e \<noteq> [] \<and> (case cosine_similarity candidate e of Inl _ \<Rightarrow> False | Inr s \<Rightarrow> s \<ge> t))"

text \<open>Sample rules for the concrete instances below.\<close>

definition sample_rule :: "string \<Rightarrow> string \<Rightarrow> real \<Rightarrow> real list option \<Rightarrow> rule" where
  "sample_rule i c conf e =
     \<lparr>rule_id = i, content = Some c, confidence = Some conf, embedding = e,
      last_applied_at = None, times_reinforced = Some 0, last_reinforced_at = None\<rparr>"

section \<open>Decay sweep (\<open>app/jobs/decay_processor.py\<close>)\<close>

datatype rule_status = Active | Archived | Disabled

text \<open>The columns of the \<open>rules\<close> table that the sweep reads or writes.\<close>

record rule_row =
  row_id :: nat
  row_user_id :: nat
  row_confidence :: real
  row_times_reinforced :: int
  row_status :: rule_status
  row_last_applied_at :: "datetime option"
  row_updated_at :: datetime

text \<open>
  Audit events: user, rule and, for a decay event, the old and the new confidence
  (the payload's rounding to two decimals is left out).
\<close>

datatype audit_event =
    Rule_decayed nat nat real real
  | Rule_archived nat nat

text \<open>
  The durable store and the per-user cache of rule snapshots (\<open>RuleCache\<close>, keyed by
  user id).
\<close>

record store =
  rules_table :: "rule_row list"
  audit_log :: "audit_event list"
  rule_cache :: "nat \<Rightarrow> rule_row list option"

record sweep =
  rows_done :: "rule_row list"
  events :: "audit_event list"
  processed :: nat
  archived :: nat
  users_affected :: "nat set"

definition empty_sweep :: sweep where
  "empty_sweep = \<lparr>rows_done = [], events = [], processed = 0, archived = 0, users_affected = {}\<rparr>"

text \<open>
  The loop over the table. The query selects the active rules; the other rows are
  carried over untouched. The ORM objects are mutated in place, so each row is written
  where it was. A row whose status is set without \<open>updated_at\<close> being assigned gets the
  column's \<open>onupdate\<close> value, the current time, when it is flushed.
\<close>

fun decay_loop :: "settings \<Rightarrow> datetime \<Rightarrow> rule_row list \<Rightarrow> sweep \<Rightarrow> sweep" where
  "decay_loop cfg now [] acc = acc"
| "decay_loop cfg now (rule # rest) acc =
     (if row_status rule \<noteq> Active
      then decay_loop cfg now rest (acc\<lparr>rows_done := rows_done acc @ [rule]\<rparr>)
      else
        (let old_confidence = row_confidence rule;
             new_confidence =
               calculate_confidence cfg now 0.5 (row_times_reinforced rule)
                 (row_last_applied_at rule) None;
             changed = (\<bar>new_confidence - old_confidence\<bar> > 0.01);
             rule1 = (if changed
                      then rule\<lparr>row_confidence := new_confidence, row_updated_at := now\<rparr>
                      else rule);
             acc1 = (if changed
                     then acc\<lparr>users_affected := insert (row_user_id rule) (users_affected acc),
                              events := events acc @
                                [Rule_decayed (row_user_id rule) (row_id rule)
                                   old_confidence new_confidence],
                              processed := processed acc + 1\<rparr>
                     else acc);
             to_archive = should_archive_rule cfg new_confidence;
             rule2 = (if to_archive
                      then rule1\<lparr>row_status := Archived, row_updated_at := now\<rparr>
                      else rule1);
             acc2 = (if to_archive
                     then acc1\<lparr>events := events acc1 @
                                 [Rule_archived (row_user_id rule) (row_id rule)],
                               archived := archived acc1 + 1\<rparr>
                     else acc1)
         in decay_loop cfg now rest (acc2\<lparr>rows_done := rows_done acc2 @ [rule2]\<rparr>)))"

text \<open>
  \<open>RuleCache.invalidate_user_rules\<close> for each affected user: the key is deleted.
\<close>

definition invalidate_users :: "nat set \<Rightarrow> (nat \<Rightarrow> 'v option) \<Rightarrow> (nat \<Rightarrow> 'v option)" where
  "invalidate_users users cache = (\<lambda>u. if u \<in> users then None else cache u)"

text \<open>
  A sweep that completes: the loop, the commit, then the invalidations. It returns the
  new store and the two counters it prints. Failures of the database or of the cache
  are not modelled.
\<close>

definition process_decay :: "settings \<Rightarrow> datetime \<Rightarrow> store \<Rightarrow> store \<times> nat \<times> nat" where
  "process_decay cfg now st =
     (let sw = decay_loop cfg now (rules_table st) empty_sweep
      in (\<lparr>rules_table = rows_done sw,
           audit_log = audit_log st @ events sw,
           rule_cache = invalidate_users (users_affected sw) (rule_cache st)\<rparr>,
          processed sw, archived sw))"

text \<open>What the loop body makes of one row.\<close>

definition decayed_row :: "settings \<Rightarrow> datetime \<Rightarrow> rule_row \<Rightarrow> rule_row" where
  "decayed_row cfg now rule = last (rows_done (decay_loop cfg now [rule] empty_sweep))"

text \<open>A row the sweep leaves alone: not active, or active with a stored confidence
  within \<open>0.01\<close> of the recomputed one and not below the archive threshold.\<close>

definition settled :: "settings \<Rightarrow> datetime \<Rightarrow> rule_row \<Rightarrow> bool" where
  "settled cfg now rule =
     (if row_status rule \<noteq> Active then True
      else
        (let new_confidence =
               calculate_confidence cfg now 0.5 (row_times_reinforced rule)
                 (row_last_applied_at rule) None
         in \<bar>new_confidence - row_confidence rule\<bar> \<le> 0.01
            \<and> \<not> should_archive_rule cfg new_confidence))"

text \<open>
  Sample stores for the concrete instances below. In \<open>stale_store\<close> the one rule is
  active with the stored confidence \<open>0.1\<close>, was last applied at time \<open>0\<close>, and its
  user's snapshot is cached; such a rule is what toggling an archived rule back to
  active leaves behind. \<open>eight_weeks\<close> is 56 days after time \<open>0\<close>.
\<close>

definition eight_weeks :: datetime where
  "eight_weeks = 56 * microseconds_per_day"

definition stale_row :: rule_row where
  "stale_row =
     \<lparr>row_id = 1, row_user_id = 7, row_confidence = 0.1, row_times_reinforced = 0,
      row_status = Active, row_last_applied_at = Some 0, row_updated_at = 0\<rparr>"

definition stale_store :: store where
  "stale_store =
     \<lparr>rules_table = [stale_row], audit_log = [],
      rule_cache = (\<lambda>u. if u = 7 then Some [stale_row] else None)\<rparr>"

definition fresh_row :: rule_row where
  "fresh_row =
     \<lparr>row_id = 2, row_user_id = 8, row_confidence = 0.5, row_times_reinforced = 1,
      row_status = Active, row_last_applied_at = None, row_updated_at = 0\<rparr>"

definition sample_store :: store where
  "sample_store =
     \<lparr>rules_table = [stale_row\<lparr>row_confidence := 0.5\<rparr>, fresh_row], audit_log = [],
      rule_cache = (\<lambda>u. if u = 7 then Some [stale_row] else None)\<rparr>"

section \<open>Correction extraction pipeline (\<open>app/core/extraction.py\<close>)\<close>

text \<open>A decoded JSON value, as \<open>json.loads\<close> returns it, and Python's truth value of it.\<close>

datatype json =
    JNull
  | JBool bool
  | JNum real
  | JStr string
  | JArr "json list"
  | JObj "(string \<times> json) list"

fun truthy :: "json \<Rightarrow> bool" where
  "truthy JNull = False"
| "truthy (JBool b) = b"
| "truthy (JNum x) = (x \<noteq> 0)"
| "truthy (JStr s) = (s \<noteq> [])"
| "truthy (JArr xs) = (xs \<noteq> [])"
| "truthy (JObj kvs) = (kvs \<noteq> [])"

text \<open>\<open>result.get(key, default)\<close>: only a dict has \<open>get\<close>.\<close>

definition dict_get :: "json \<Rightarrow> string \<Rightarrow> json \<Rightarrow> error + json" where
  "dict_get result key dflt =
     (case result of
        JObj kvs \<Rightarrow> Inr (case map_of kvs key of None \<Rightarrow> dflt | Some v \<Rightarrow> v)
      | _ \<Rightarrow> Inl AttributeError)"

text \<open>
  A prompt is its template with the arguments filled in. The external services are
  parameters: \<open>extract_json_response\<close> answers a prompt with a decoded JSON value or
  fails; \<open>generate_embedding\<close> answers a text with a vector or fails, and may answer
  the same text differently each time, so it also takes the number of the call within
  one run of the pipeline.
\<close>

datatype prompt =
    Correction_detection_prompt string string
  | Rule_extraction_prompt string string

record services =
  extract_json_response :: "prompt \<Rightarrow> error + json"
  generate_embedding :: "nat \<Rightarrow> json \<Rightarrow> error + real list"

text \<open>\<open>str.lower\<close> on ASCII text.\<close>

definition lower_char :: "char \<Rightarrow> char" where
  "lower_char c =
     (case map_of (zip ''ABCDEFGHIJKLMNOPQRSTUVWXYZ'' ''abcdefghijklmnopqrstuvwxyz'') c of
        None \<Rightarrow> c
      | Some l \<Rightarrow> l)"

definition lower :: "string \<Rightarrow> string" where
  "lower s = map lower_char s"

text \<open>\<open>kw in s\<close> on strings: \<open>kw\<close> occurs in \<open>s\<close> as a contiguous piece.\<close>

fun is_substring :: "string \<Rightarrow> string \<Rightarrow> bool" where
  "is_substring kw [] = (kw = [])"
| "is_substring kw (c # cs) = (prefix kw (c # cs) \<or> is_substring kw cs)"

definition correction_keywords :: "string list" where
  "correction_keywords =
     [''don't'', ''dont'', ''stop'', ''never'', ''always'', ''instead'', ''rather'',
      ''prefer'', ''please use'', ''not like'', ''wrong'', ''fix'', ''change'']"

text \<open>The \<open>except\<close> branch of \<open>detect_correction\<close>.\<close>

definition keyword_heuristic :: "string \<Rightarrow> json \<times> json \<times> json" where
  "keyword_heuristic user_message =
     (let is_correction =
            list_ex (\<lambda>kw. is_substring kw (lower user_message)) correction_keywords
      in (JBool is_correction,
          JStr (if is_correction then ''style'' else ''none''),
          JNum (if is_correction then 0.5 else 0)))"

text \<open>
  The \<open>try\<close> block holds the service call and the three \<open>result.get\<close>; whatever is
  raised there leads to the heuristic.
\<close>

definition detect_correction :: "services \<Rightarrow> string \<Rightarrow> string \<Rightarrow> json \<times> json \<times> json" where
  "detect_correction sv user_message previous_response =
     (let prompt = Correction_detection_prompt (take 1000 previous_response) user_message
      in case extract_json_response sv prompt of
           Inl e \<Rightarrow> keyword_heuristic user_message
         | Inr result \<Rightarrow>
             (case dict_get result ''is_correction'' (JBool False) of
                Inl e \<Rightarrow> keyword_heuristic user_message
              | Inr is_correction \<Rightarrow>
                  (case dict_get result ''correction_type'' (JStr ''none'') of
                     Inl e \<Rightarrow> keyword_heuristic user_message
                   | Inr correction_type \<Rightarrow>
                       (case dict_get result ''confidence'' (JNum 0) of
                          Inl e \<Rightarrow> keyword_heuristic user_message
                        | Inr conf \<Rightarrow> (is_correction, correction_type, conf)))))"

text \<open>
  The rule draft: the dict \<open>extract_rule\<close> builds. Its \<open>embedding\<close> key is set by
  \<open>process_correction\<close> only; until then, and when the embedding failed, it is
  \<open>None\<close>.
\<close>

record rule_data =
  rd_content :: json
  rd_category :: json
  rd_reasoning :: json
  rd_original_correction :: string
  rd_created_at :: datetime
  rd_embedding :: "real list option"

definition extract_rule :: "services \<Rightarrow> datetime \<Rightarrow> string \<Rightarrow> string \<Rightarrow> rule_data option" where
  "extract_rule sv now user_correction previous_response =
     (let prompt = Rule_extraction_prompt (take 1000 previous_response) user_correction
      in case extract_json_response sv prompt of
           Inl e \<Rightarrow> None
         | Inr result \<Rightarrow>
             (case dict_get result ''is_valid'' (JBool True) of
                Inl e \<Rightarrow> None
              | Inr is_valid \<Rightarrow>
                  if \<not> truthy is_valid then None
                  else
                    (case dict_get result ''rule'' JNull of
                       Inl e \<Rightarrow> None
                     | Inr rule_content \<Rightarrow>
                         if \<not> truthy rule_content then None
                         else
                           (case dict_get result ''category'' (JStr ''style'') of
                              Inl e \<Rightarrow> None
                            | Inr category \<Rightarrow>
                                (case dict_get result ''reasoning'' (JStr []) of
                                   Inl e \<Rightarrow> None
                                 | Inr reasoning \<Rightarrow>
                                     Some \<lparr>rd_content = rule_content,
                                           rd_category = category,
                                           rd_reasoning = reasoning,
                                           rd_original_correction = user_correction,
                                           rd_created_at = now,
                                           rd_embedding = None\<rparr>)))))"

text \<open>
  \<open>check_duplicate_rule\<close>: the embedding call and \<open>find_similar_rule\<close> (with the
  default threshold) are inside one \<open>try\<close>; any exception gives \<open>None\<close>.
\<close>

definition check_duplicate_rule ::
  "settings \<Rightarrow> services \<Rightarrow> nat \<Rightarrow> json \<Rightarrow> rule list \<Rightarrow> rule option" where
  "check_duplicate_rule cfg sv call new_rule_content existing_rules =
     (case generate_embedding sv call new_rule_content of
        Inl e \<Rightarrow> None
      | Inr new_embedding \<Rightarrow>
          (case find_similar_rule cfg new_embedding existing_rules None of
             Inl e \<Rightarrow> None
           | Inr found \<Rightarrow> found))"

text \<open>
  The terminal results, with their messages; the message of \<open>rule_created\<close> is the
  rule's content after a fixed prefix and is not kept apart.
\<close>

datatype correction_result =
    Extraction_failed string
  | Duplicate_found rule string
  | Rule_created rule_data

fun status :: "correction_result \<Rightarrow> string" where
  "status (Extraction_failed m) = ''extraction_failed''"
| "status (Duplicate_found r m) = ''duplicate_found''"
| "status (Rule_created d) = ''rule_created''"

definition process_correction ::
  "settings \<Rightarrow> services \<Rightarrow> datetime \<Rightarrow> string \<Rightarrow> string \<Rightarrow> rule list \<Rightarrow> correction_result" where
  "process_correction cfg sv now user_correction previous_response existing_rules =
     (case extract_rule sv now user_correction previous_response of
        None \<Rightarrow> Extraction_failed ''Could not extract a clear rule from this correction''
      | Some rule_data \<Rightarrow>
          (case check_duplicate_rule cfg sv 0 (rd_content rule_data) existing_rules of
             Some duplicate \<Rightarrow>
               Duplicate_found duplicate
                 ''This preference already exists and has been reinforced''
           | None \<Rightarrow>
               (case generate_embedding sv 1 (rd_content rule_data) of
                  Inr emb \<Rightarrow> Rule_created (rule_data\<lparr>rd_embedding := Some emb\<rparr>)
                | Inl e \<Rightarrow> Rule_created (rule_data\<lparr>rd_embedding := None\<rparr>))))"

text \<open>Sample services for the concrete instances below.\<close>

definition failing_services :: services where
  "failing_services =
     \<lparr>extract_json_response = (\<lambda>p. Inl ServiceError),
      generate_embedding = (\<lambda>n t. Inl ServiceError)\<rparr>"

definition sample_answer :: json where
  "sample_answer =
     JObj [(''rule'', JStr ''Avoid bullet points''), (''category'', JStr ''formatting''),
           (''reasoning'', JStr ''stated preference''), (''is_valid'', JBool True)]"

definition sample_services :: "json \<Rightarrow> (nat \<Rightarrow> error + real list) \<Rightarrow> services" where
  "sample_services answer emb =
     \<lparr>extract_json_response = (\<lambda>p. Inr answer),
      generate_embedding = (\<lambda>n t. emb n)\<rparr>"

section \<open>Confidence\<close>

lemma floor_days_over_seven: "\<lfloor>real_of_int d / 7\<rfloor> = d div 7"
  by (simp add: floor_divide_of_int_eq [of d 7, simplified])

lemma clamp_lower: "0.1 \<le> max 0.1 (min 0.95 (c::real))"
  by simp

lemma clamp_upper: "max 0.1 (min 0.95 (c::real)) \<le> 0.95"
  by (simp add: max_def min_def)

lemma calculate_confidence_lower: "0.1 \<le> calculate_confidence cfg now b n la lr"
  unfolding calculate_confidence_def Let_def by (rule clamp_lower)

lemma calculate_confidence_upper: "calculate_confidence cfg now b n la lr \<le> 0.95"
  unfolding calculate_confidence_def Let_def by (rule clamp_upper)

text \<open>
  Claim C1. For every base confidence, reinforcement count and (possibly absent)
  timestamps, \<open>calculate_confidence\<close> returns the base plus the reinforcement bonus
  \<open>min (times_reinforced * 0.1) 0.45\<close> minus the decay penalty of the specification,
  clamped into \<open>[0.1, 0.95]\<close>.
\<close>

theorem calculate_confidence_formula:
  "calculate_confidence cfg now base n la lr =
     max 0.1 (min 0.95 (base + min (real_of_int n * 0.1) 0.45 - spec_decay_penalty cfg now la))
   \<and> spec_decay_penalty cfg now None = 0
   \<and> 0.1 \<le> calculate_confidence cfg now base n la lr
   \<and> calculate_confidence cfg now base n la lr \<le> 0.95"
proof -
  have "calculate_confidence cfg now base n la lr =
     max 0.1 (min 0.95 (base + min (real_of_int n * 0.1) 0.45 - spec_decay_penalty cfg now la))"
    by (cases la)
       (simp_all add: calculate_confidence_def spec_decay_penalty_def Let_def floor_days_over_seven)
  moreover have "spec_decay_penalty cfg now None = 0"
    by (simp add: spec_decay_penalty_def)
  ultimately show ?thesis
    using calculate_confidence_lower calculate_confidence_upper by blast
qed

lemma three_weeks_confidence:
  "calculate_confidence default_settings (21 * microseconds_per_day) (1 / 2) 0 (Some 0) None
     = 7 / 20"
  by (simp add: calculate_confidence_def default_settings_def microseconds_per_day_def
      timedelta_days_def Let_def)

theorem calculate_confidence_formula_witness:
  "calculate_confidence default_settings (21 * microseconds_per_day) 0.5 0 (Some 0) None = 0.35
   \<and> spec_decay_penalty default_settings (21 * microseconds_per_day) (Some 0) = 0.15
   \<and> 0.1 \<le> calculate_confidence default_settings (21 * microseconds_per_day) 0.5 0 (Some 0) None
   \<and> calculate_confidence default_settings (21 * microseconds_per_day) 0.5 0 (Some 0) None \<le> 0.95"
  using calculate_confidence_formula
    [of default_settings "21 * microseconds_per_day" "0.5" 0 "Some 0" None]
  by (simp add: three_weeks_confidence)
     (simp add: spec_decay_penalty_def default_settings_def microseconds_per_day_def
        timedelta_days_def)

section \<open>Cosine similarity: bounds\<close>

lemma sumsq_nonneg: "0 \<le> sum_list (map (\<lambda>x. \<bar>x\<bar> ^ 2) (v::real list))"
  by (rule sum_list_nonneg) auto

lemma norm2_power2: "(norm2 v) ^ 2 = sum_list (map (\<lambda>x. \<bar>x\<bar> ^ 2) v)"
  unfolding norm2_def by (rule real_sqrt_pow2) (rule sumsq_nonneg)

lemma norm2_nonneg: "0 \<le> norm2 v"
  unfolding norm2_def by (rule real_sqrt_ge_zero) (rule sumsq_nonneg)

lemma norm2_Cons: "norm2 (x # v) = sqrt (x ^ 2 + (norm2 v) ^ 2)"
  unfolding norm2_power2 by (simp add: norm2_def)

lemma dot_Cons: "dot (x # v) (y # w) = x * y + dot v w"
  by (simp add: dot_def)

lemma two_dim_cs:
  fixes a b x y :: real
  assumes "0 \<le> a" "0 \<le> b"
  shows "a * b + \<bar>x\<bar> * \<bar>y\<bar> \<le> sqrt (x ^ 2 + a ^ 2) * sqrt (y ^ 2 + b ^ 2)"
proof -
  have "(a * b + \<bar>x\<bar> * \<bar>y\<bar>) ^ 2 \<le> (x ^ 2 + a ^ 2) * (y ^ 2 + b ^ 2)"
  proof -
    have "0 \<le> (a * \<bar>y\<bar> - b * \<bar>x\<bar>) ^ 2" by simp
    then show ?thesis by (simp add: power2_eq_square algebra_simps)
  qed
  then have "sqrt ((a * b + \<bar>x\<bar> * \<bar>y\<bar>) ^ 2) \<le> sqrt ((x ^ 2 + a ^ 2) * (y ^ 2 + b ^ 2))"
    by (rule real_sqrt_le_mono)
  moreover have "0 \<le> a * b + \<bar>x\<bar> * \<bar>y\<bar>" using assms by simp
  ultimately show ?thesis by (simp add: real_sqrt_mult)
qed

lemma abs_dot_le: "length v = length w \<Longrightarrow> \<bar>dot v w\<bar> \<le> norm2 v * norm2 w"
proof (induction v w rule: list_induct2)
  case Nil
  then show ?case by (simp add: dot_def norm2_def)
next
  case (Cons x xs y ys)
  have "\<bar>dot (x # xs) (y # ys)\<bar> \<le> \<bar>x\<bar> * \<bar>y\<bar> + \<bar>dot xs ys\<bar>"
    by (simp add: dot_Cons abs_mult [symmetric]) 
  also have "\<dots> \<le> norm2 xs * norm2 ys + \<bar>x\<bar> * \<bar>y\<bar>" using Cons.IH by simp
  also have "\<dots> \<le> norm2 (x # xs) * norm2 (y # ys)"
    unfolding norm2_Cons by (rule two_dim_cs) (rule norm2_nonneg)+
  finally show ?case .
qed

lemma dot_nonneg: "length v = length w \<Longrightarrow> \<forall>x\<in>set v. 0 \<le> x \<Longrightarrow> \<forall>x\<in>set w. 0 \<le> x \<Longrightarrow> 0 \<le> dot v w"
  by (induction v w rule: list_induct2) (auto simp: dot_Cons dot_def)

lemma dot_self: "dot v v = (norm2 v) ^ 2"
  unfolding norm2_power2 by (induction v) (simp_all add: dot_def power2_eq_square)

lemma norm2_zero_iff: "norm2 v = 0 \<longleftrightarrow> (\<forall>x\<in>set v. x = 0)"
proof (induction v)
  case Nil show ?case by (simp add: norm2_def)
next
  case (Cons x v)
  have "norm2 (x # v) = 0 \<longleftrightarrow> x ^ 2 + (norm2 v) ^ 2 = 0"
    unfolding norm2_Cons by simp
  also have "\<dots> \<longleftrightarrow> x = 0 \<and> norm2 v = 0"
    by (simp add: sum_power2_eq_zero_iff)
  finally show ?case using Cons.IH by simp
qed


lemma cosine_similarity_value:
  "length a = length b \<Longrightarrow>
   cosine_similarity a b =
     Inr (if norm2 a = 0 \<or> norm2 b = 0 then 0 else dot a b / (norm2 a * norm2 b))"
  by (simp add: cosine_similarity_def Let_def)

lemma cosine_ratio_bounds:
  assumes len: "length a = length b" and na: "norm2 a \<noteq> 0" and nb: "norm2 b \<noteq> 0"
  shows "\<bar>dot a b / (norm2 a * norm2 b)\<bar> \<le> 1"
proof -
  have pos: "0 < norm2 a * norm2 b"
    using na nb norm2_nonneg [of a] norm2_nonneg [of b] by (simp add: less_le)
  have "\<bar>dot a b\<bar> \<le> norm2 a * norm2 b" using len by (rule abs_dot_le)
  then have "\<bar>dot a b\<bar> / (norm2 a * norm2 b) \<le> 1" using pos by simp
  moreover have "\<bar>dot a b / (norm2 a * norm2 b)\<bar> = \<bar>dot a b\<bar> / (norm2 a * norm2 b)"
    using pos by (simp only: abs_divide abs_of_pos)
  ultimately show ?thesis by (simp only:)
qed

text \<open>
  The formula in exact arithmetic: \<open>0\<close> when either norm is zero, a value in
  \<open>[0, 1]\<close> when all components of both vectors are non-negative, and \<open>1\<close> when
  both arguments are the same vector of non-zero norm. The double computation leaves
  these bounds by rounding, as the instance \<open>[1, 1, 1]\<close> below shows.
\<close>

lemma cosine_similarity_exact:
  "(length a \<noteq> length b \<longrightarrow> cosine_similarity a b = Inl ValueError)
   \<and> (length a = length b \<longrightarrow>
        (\<exists>s. cosine_similarity a b = Inr s
           \<and> (norm2 a = 0 \<or> norm2 b = 0 \<longrightarrow> s = 0)
           \<and> ((\<forall>x\<in>set a. 0 \<le> x) \<and> (\<forall>y\<in>set b. 0 \<le> y) \<longrightarrow> 0 \<le> s \<and> s \<le> 1)
           \<and> (a = b \<and> norm2 a \<noteq> 0 \<longrightarrow> s = 1)))"
proof (intro conjI impI)
  assume "length a \<noteq> length b"
  then show "cosine_similarity a b = Inl ValueError"
    by (simp add: cosine_similarity_def)
next
  assume len: "length a = length b"
  define s where "s = (if norm2 a = 0 \<or> norm2 b = 0 then 0 else dot a b / (norm2 a * norm2 b))"
  have val: "cosine_similarity a b = Inr s"
    unfolding s_def using len by (rule cosine_similarity_value)
  have zero: "norm2 a = 0 \<or> norm2 b = 0 \<longrightarrow> s = 0"
    by (simp add: s_def)
  have range: "(\<forall>x\<in>set a. 0 \<le> x) \<and> (\<forall>y\<in>set b. 0 \<le> y) \<longrightarrow> 0 \<le> s \<and> s \<le> 1"
  proof
    assume nn: "(\<forall>x\<in>set a. 0 \<le> x) \<and> (\<forall>y\<in>set b. 0 \<le> y)"
    show "0 \<le> s \<and> s \<le> 1"
    proof (cases "norm2 a = 0 \<or> norm2 b = 0")
      case True
      then show ?thesis by (simp add: s_def)
    next
      case False
      then have s: "s = dot a b / (norm2 a * norm2 b)" by (simp add: s_def)
      have "0 \<le> dot a b" using len nn by (simp add: dot_nonneg)
      then have "0 \<le> s"
        unfolding s using norm2_nonneg [of a] norm2_nonneg [of b] by simp
      moreover have "norm2 a \<noteq> 0" and "norm2 b \<noteq> 0" using False by simp_all
      then have "\<bar>s\<bar> \<le> 1"
        unfolding s by (rule cosine_ratio_bounds [OF len])
      ultimately show ?thesis by simp
    qed
  qed
  have same: "a = b \<and> norm2 a \<noteq> 0 \<longrightarrow> s = 1"
    by (auto simp: s_def dot_self power2_eq_square)
  show "\<exists>s. cosine_similarity a b = Inr s
           \<and> (norm2 a = 0 \<or> norm2 b = 0 \<longrightarrow> s = 0)
           \<and> ((\<forall>x\<in>set a. 0 \<le> x) \<and> (\<forall>y\<in>set b. 0 \<le> y) \<longrightarrow> 0 \<le> s \<and> s \<le> 1)
           \<and> (a = b \<and> norm2 a \<noteq> 0 \<longrightarrow> s = 1)"
    using val zero range same by blast
qed

subsection \<open>The computation in doubles\<close>

























section \<open>Duplicate detection\<close>

lemma qualifies_iff:
  "qualifies t cand r \<longleftrightarrow>
     (\<exists>e s. embedding r = Some e \<and> e \<noteq> [] \<and> cosine_similarity cand e = Inr s \<and> t \<le> s)"
  by (auto simp: qualifies_def split: option.splits sum.splits)

lemma find_similar_loop_find:
  "embeddings_have_length (length cand) rules \<Longrightarrow>
   find_similar_loop t cand rules = Inr (find (qualifies t cand) rules)"
proof (induction rules)
  case Nil
  show ?case by simp
next
  case (Cons r rs)
  then have rest: "find_similar_loop t cand rs = Inr (find (qualifies t cand) rs)"
    by (simp add: embeddings_have_length_def)
  show ?case
  proof (cases "truthy_embedding (embedding r)")
    case False
    then have "\<not> qualifies t cand r"
      by (auto simp: qualifies_iff truthy_embedding_def)
    then show ?thesis using False by (simp add: rest)
  next
    case True
    then obtain e where e: "embedding r = Some e" "e \<noteq> []"
      by (auto simp: truthy_embedding_def split: option.splits)
    then have "length cand = length e"
      using Cons.prems by (simp add: embeddings_have_length_def)
    then obtain s where s: "cosine_similarity cand e = Inr s"
      using cosine_similarity_value by blast
    then have "qualifies t cand r \<longleftrightarrow> t \<le> s"
      using e by (simp add: qualifies_iff)
    then show ?thesis using True e s by (simp add: rest)
  qed
qed

text \<open>
  Claim C3, as amended. The threshold in force is the one passed, unless none or
  \<open>0.0\<close> is passed, when it is the configured \<open>similarity_threshold\<close>. When every
  non-empty embedding among the existing rules has the candidate's length,
  \<open>find_similar_rule\<close> returns \<open>None\<close> if no rule carrying a non-empty embedding has
  cosine similarity at or above the threshold in force, and otherwise the first such
  rule in input order (first match, not best match); a rule whose embedding is
  missing or empty is skipped and never returned.
\<close>

theorem find_similar_rule_first_match:
  assumes "embeddings_have_length (length cand) rules"
    and "t = threshold_or_default cfg thr"
  shows "(thr = None \<or> thr = Some 0 \<longrightarrow> t = similarity_threshold cfg)
     \<and> (\<forall>x. thr = Some x \<and> x \<noteq> 0 \<longrightarrow> t = x)
     \<and> find_similar_rule cfg cand rules thr = Inr (find (qualifies t cand) rules)
     \<and> ((\<forall>r\<in>set rules. \<not> qualifies t cand r)
          \<longrightarrow> find_similar_rule cfg cand rules thr = Inr None)
     \<and> (\<forall>i<length rules. qualifies t cand (rules ! i) \<and> (\<forall>j<i. \<not> qualifies t cand (rules ! j))
          \<longrightarrow> find_similar_rule cfg cand rules thr = Inr (Some (rules ! i)))
     \<and> (\<forall>r. find_similar_rule cfg cand rules thr = Inr (Some r)
          \<longrightarrow> r \<in> set rules \<and> qualifies t cand r
              \<and> (\<exists>e. embedding r = Some e \<and> e \<noteq> []))"
proof -
  have dflt: "thr = None \<or> thr = Some 0 \<longrightarrow> t = similarity_threshold cfg"
    using assms(2) by (auto simp: threshold_or_default_def)
  have given: "\<forall>x. thr = Some x \<and> x \<noteq> 0 \<longrightarrow> t = x"
    using assms(2) by (auto simp: threshold_or_default_def)
  have eq: "find_similar_rule cfg cand rules thr = Inr (find (qualifies t cand) rules)"
    using assms by (simp add: find_similar_rule_def find_similar_loop_find)
  have none: "(\<forall>r\<in>set rules. \<not> qualifies t cand r)
          \<longrightarrow> find_similar_rule cfg cand rules thr = Inr None"
    by (simp add: eq find_None_iff)
  have first: "\<forall>i<length rules. qualifies t cand (rules ! i) \<and> (\<forall>j<i. \<not> qualifies t cand (rules ! j))
          \<longrightarrow> find_similar_rule cfg cand rules thr = Inr (Some (rules ! i))"
    unfolding eq by (auto simp: find_Some_iff)
  have sound: "\<forall>r. find_similar_rule cfg cand rules thr = Inr (Some r)
          \<longrightarrow> r \<in> set rules \<and> qualifies t cand r
              \<and> (\<exists>e. embedding r = Some e \<and> e \<noteq> [])"
  proof (intro allI impI)
    fix r assume "find_similar_rule cfg cand rules thr = Inr (Some r)"
    then have f: "find (qualifies t cand) rules = Some r" by (simp add: eq)
    then have "r \<in> set rules" and q: "qualifies t cand r"
      by (auto simp: find_Some_iff)
    moreover from q have "\<exists>e. embedding r = Some e \<and> e \<noteq> []"
      by (auto simp: qualifies_iff)
    ultimately show "r \<in> set rules \<and> qualifies t cand r
              \<and> (\<exists>e. embedding r = Some e \<and> e \<noteq> [])" by blast
  qed
  show ?thesis using dflt given eq none first sound by blast
qed

lemma cos_10_34: "cosine_similarity [1, 0] [3, 4] = Inr (3 / 5)"
  by (simp add: cosine_similarity_def dot_def norm2_def)

lemma cos_34_34: "cosine_similarity [3, 4] [3, 4] = Inr 1"
  by (simp add: cosine_similarity_def dot_def norm2_def)

lemma cos_34_10: "cosine_similarity [3, 4] [1, 0] = Inr (3 / 5)"
  by (simp add: cosine_similarity_def dot_def norm2_def)

theorem find_similar_rule_first_match_witness:
  "find_similar_rule default_settings [3, 4]
       [sample_rule ''a'' ''x'' 0.5 None,
        sample_rule ''b'' ''y'' 0.5 (Some [1, 0]),
        sample_rule ''c'' ''z'' 0.5 (Some [3, 4]),
        sample_rule ''d'' ''w'' 0.5 (Some [3, 4])]
       (Some 0.9)
     = Inr (Some (sample_rule ''c'' ''z'' 0.5 (Some [3, 4])))"
  using find_similar_rule_first_match
    [of "[3, 4]"
        "[sample_rule ''a'' ''x'' 0.5 None,
          sample_rule ''b'' ''y'' 0.5 (Some [1, 0]),
          sample_rule ''c'' ''z'' 0.5 (Some [3, 4]),
          sample_rule ''d'' ''w'' 0.5 (Some [3, 4])]" "0.9" default_settings "Some 0.9"]
  by (simp add: embeddings_have_length_def threshold_or_default_def qualifies_def
      sample_rule_def cos_34_34 cos_34_10)

text \<open>
  The claim as stated, for every threshold, fails at the threshold \<open>0.0\<close>: a rule of
  similarity \<open>0.6\<close> is at or above it, and \<open>None\<close> is returned.
\<close>

theorem find_similar_rule_zero_threshold_counterexample:
  "qualifies 0 [1, 0] (sample_rule ''b'' ''y'' 0.5 (Some [3, 4]))
   \<and> find_similar_rule default_settings [1, 0]
        [sample_rule ''b'' ''y'' 0.5 (Some [3, 4])] (Some 0) = Inr None"
  by (simp add: qualifies_def find_similar_rule_def threshold_or_default_def
      default_settings_def sample_rule_def truthy_embedding_def cos_10_34)

text \<open>
  Claim C10. An explicit threshold of \<open>0.0\<close> behaves as no threshold at all: the
  configured \<open>similarity_threshold\<close> is applied in its place, so a zero threshold
  does not make every embedded rule match.
\<close>

theorem find_similar_rule_zero_is_default:
  "find_similar_rule cfg cand rules (Some 0) = find_similar_rule cfg cand rules None
   \<and> find_similar_rule cfg cand rules (Some 0)
       = find_similar_rule cfg cand rules (Some (similarity_threshold cfg))"
  by (simp add: find_similar_rule_def threshold_or_default_def)

theorem find_similar_rule_zero_is_default_witness:
  "find_similar_rule default_settings [1, 0]
     [sample_rule ''b'' ''y'' 0.5 (Some [3, 4])] (Some 0)
   = find_similar_rule default_settings [1, 0]
     [sample_rule ''b'' ''y'' 0.5 (Some [3, 4])] None
   \<and> find_similar_rule default_settings [1, 0]
     [sample_rule ''b'' ''y'' 0.5 (Some [3, 4])] None = Inr None"
  using find_similar_rule_zero_is_default
    [of default_settings "[1, 0]" "[sample_rule ''b'' ''y'' 0.5 (Some [3, 4])]"]
  by (simp add: find_similar_rule_def threshold_or_default_def
      default_settings_def sample_rule_def truthy_embedding_def cos_10_34)

section \<open>Merging\<close>

text \<open>
  Claim C8. \<open>merge_rules\<close> returns the rule with \<open>times_reinforced\<close> one higher,
  \<open>last_reinforced_at\<close> set to the current time and the confidence
  \<open>min 0.95 (old + 0.1)\<close> (a missing counter counts as \<open>0\<close>, a missing confidence as
  \<open>0.5\<close>); every other field is unchanged. The instance below it: confidence
  \<open>0.5\<close> and no reinforcement become \<open>0.6\<close> and one reinforcement.
\<close>

theorem merge_rules_spec:
  "times_reinforced (merge_rules now r c)
     = Some ((case times_reinforced r of None \<Rightarrow> 0 | Some n \<Rightarrow> n) + 1)
   \<and> last_reinforced_at (merge_rules now r c) = Some now
   \<and> confidence (merge_rules now r c) = Some (min 0.95 (rule_confidence r + 0.1))
   \<and> rule_id (merge_rules now r c) = rule_id r
   \<and> content (merge_rules now r c) = content r
   \<and> embedding (merge_rules now r c) = embedding r
   \<and> last_applied_at (merge_rules now r c) = last_applied_at r
   \<and> rule.more (merge_rules now r c) = rule.more r"
  by (simp add: merge_rules_def rule_confidence_def)

theorem merge_rules_spec_witness:
  "confidence (merge_rules 7 (sample_rule ''a'' ''x'' 0.5 None) ''again'') = Some 0.6
   \<and> times_reinforced (merge_rules 7 (sample_rule ''a'' ''x'' 0.5 None) ''again'') = Some 1
   \<and> last_reinforced_at (merge_rules 7 (sample_rule ''a'' ''x'' 0.5 None) ''again'') = Some 7"
  using merge_rules_spec [of 7 "sample_rule ''a'' ''x'' 0.5 None" "''again''"]
  by (simp add: sample_rule_def rule_confidence_def)

section \<open>Ranking\<close>

lemma relevance_of_value:
  assumes "\<forall>c. ctx = Some c \<and> c \<noteq> [] \<longrightarrow> embeddings_have_length (length c) rules"
    and "r \<in> set rules"
  shows "relevance_of ctx r = Inr (spec_relevance ctx r)"
proof (cases "truthy_embedding ctx \<and> truthy_embedding (embedding r)")
  case False
  then show ?thesis
    by (auto simp: relevance_of_def spec_relevance_def truthy_embedding_def split: option.splits)
next
  case True
  then obtain c e where ce: "ctx = Some c" "c \<noteq> []" "embedding r = Some e" "e \<noteq> []"
    by (auto simp: truthy_embedding_def split: option.splits)
  then have "embeddings_have_length (length c) rules" using assms(1) by blast
  then have "length c = length e"
    using assms(2) ce by (auto simp: embeddings_have_length_def list_all_iff)
  then obtain s where "cosine_similarity c e = Inr s"
    using cosine_similarity_value by blast
  then show ?thesis
    using ce by (simp add: relevance_of_def spec_relevance_def truthy_embedding_def)
qed

lemma rank_loop_value:
  assumes "\<forall>r\<in>set rules. relevance_of ctx r = Inr (spec_relevance ctx r)"
  shows "rank_loop cfg now ctx rules acc = Inr (acc @ scored_eligible cfg now ctx rules)"
  using assms
proof (induction rules arbitrary: acc)
  case Nil
  show ?case by (simp add: scored_eligible_def)
next
  case (Cons r rs)
  then have rel: "relevance_of ctx r = Inr (spec_relevance ctx r)" by simp
  have rest: "\<And>acc. rank_loop cfg now ctx rs acc = Inr (acc @ scored_eligible cfg now ctx rs)"
    using Cons by simp
  show ?case
    by (simp add: rel rest Let_def scored_eligible_def eligible_def spec_score_def)
qed

lemma sorted_desc_sort_by_score: "sorted_wrt (\<lambda>p q. snd p \<ge> snd q) (sort_by_score_desc xs)"
proof -
  have "sorted (map (\<lambda>x. - snd x) (sort_by_score_desc xs))"
    unfolding sort_by_score_desc_def by (rule sorted_sort_key)
  then show ?thesis by (simp add: sorted_map)
qed

lemma stable_sort_by_score:
  "filter (\<lambda>p. snd p = k) (sort_by_score_desc xs) = filter (\<lambda>p. snd p = k) xs"
proof -
  have "filter (\<lambda>p. - snd p = - k) (sort_key (\<lambda>x. - snd x) xs) = filter (\<lambda>p. - snd p = - k) xs"
    by (rule sort_key_stable)
  then show ?thesis by (simp add: sort_by_score_desc_def)
qed

lemma map_fst_scored_eligible:
  "map fst (scored_eligible cfg now ctx rules) = filter (eligible cfg) rules"
  by (simp add: scored_eligible_def comp_def)

text \<open>
  Claim C7, as amended. When every non-empty rule embedding has the length of the
  (non-empty) context embedding and \<open>max_rules\<close> is not negative, \<open>rank_rules\<close>
  returns the first \<open>max_rules\<close> entries of a list \<open>full\<close> that holds exactly the rules
  with confidence at or above \<open>confidence_threshold\<close> (a missing confidence counts as
  \<open>0.5\<close>), each with the score confidence times relevance times recency boost, the
  relevance being the cosine similarity when the context and the rule both have a
  non-empty embedding and \<open>1\<close> otherwise; \<open>full\<close> is in descending order of score, and
  entries of equal score are in input order.
\<close>

theorem rank_rules_spec:
  assumes "\<forall>c. ctx = Some c \<and> c \<noteq> [] \<longrightarrow> embeddings_have_length (length c) rules"
    and "0 \<le> max_rules"
  shows "\<exists>full. rank_rules cfg now rules ctx max_rules = Inr (take (nat max_rules) full)
     \<and> mset (map fst full) = mset (filter (\<lambda>r. rule_confidence r \<ge> confidence_threshold cfg) rules)
     \<and> (\<forall>p\<in>set full.
           snd p = rule_confidence (fst p) * spec_relevance ctx (fst p) * recency_boost now (fst p))
     \<and> sorted_wrt (\<lambda>p q. snd p \<ge> snd q) full
     \<and> (\<forall>k. filter (\<lambda>p. snd p = k) full
              = filter (\<lambda>p. snd p = k)
                  (map (\<lambda>r. (r, rule_confidence r * spec_relevance ctx r * recency_boost now r))
                     (filter (\<lambda>r. rule_confidence r \<ge> confidence_threshold cfg) rules)))"
proof -
  define full where "full = sort_by_score_desc (scored_eligible cfg now ctx rules)"
  have rel: "\<forall>r\<in>set rules. relevance_of ctx r = Inr (spec_relevance ctx r)"
    using assms(1) by (blast intro: relevance_of_value)
  have loop: "rank_loop cfg now ctx rules [] = Inr (scored_eligible cfg now ctx rules)"
    using rank_loop_value [OF rel, of cfg now "[]"] by simp
  have res: "rank_rules cfg now rules ctx max_rules = Inr (take (nat max_rules) full)"
    using assms(2) by (simp add: rank_rules_def loop slice_to_def full_def)
  have se: "scored_eligible cfg now ctx rules
      = map (\<lambda>r. (r, rule_confidence r * spec_relevance ctx r * recency_boost now r))
          (filter (\<lambda>r. rule_confidence r \<ge> confidence_threshold cfg) rules)"
    by (simp add: scored_eligible_def spec_score_def eligible_def [abs_def])
  have "mset full = mset (scored_eligible cfg now ctx rules)"
    by (simp add: full_def sort_by_score_desc_def)
  then have "mset (map fst full) = mset (map fst (scored_eligible cfg now ctx rules))"
    by (metis mset_map)
  then have perm: "mset (map fst full)
      = mset (filter (\<lambda>r. rule_confidence r \<ge> confidence_threshold cfg) rules)"
    by (simp add: map_fst_scored_eligible eligible_def [abs_def])
  have "set full = set (scored_eligible cfg now ctx rules)"
    by (simp add: full_def sort_by_score_desc_def)
  then have score: "\<forall>p\<in>set full.
      snd p = rule_confidence (fst p) * spec_relevance ctx (fst p) * recency_boost now (fst p)"
    by (auto simp: scored_eligible_def spec_score_def)
  have sorted: "sorted_wrt (\<lambda>p q. snd p \<ge> snd q) full"
    unfolding full_def by (rule sorted_desc_sort_by_score)
  have stable: "\<forall>k. filter (\<lambda>p. snd p = k) full
              = filter (\<lambda>p. snd p = k)
                  (map (\<lambda>r. (r, rule_confidence r * spec_relevance ctx r * recency_boost now r))
                     (filter (\<lambda>r. rule_confidence r \<ge> confidence_threshold cfg) rules))"
    unfolding full_def se [symmetric] by (simp add: stable_sort_by_score)
  show ?thesis using res perm score sorted stable by blast
qed

text \<open>
  The claim as stated, for every list of rules and every context embedding, fails when
  a rule embedding and the context embedding differ in length: the call raises and
  returns no list.
\<close>

theorem rank_rules_raises:
  "rank_rules default_settings 0 [sample_rule ''b'' ''y'' 0.5 (Some [3, 4])] (Some [1]) 10
     = Inl ValueError"
  by (simp add: rank_rules_def relevance_of_def truthy_embedding_def sample_rule_def
      rule_confidence_def cosine_similarity_def Let_def)


lemma rank_rules_sample:
  "rank_rules default_settings 0
     [sample_rule ''a'' ''x'' 0.5 None, sample_rule ''b'' ''y'' 0.2 None,
      sample_rule ''c'' ''z'' 0.9 None, sample_rule ''d'' ''w'' 0.5 None]
     None 2
   = Inr [(sample_rule ''c'' ''z'' 0.9 None, 0.9), (sample_rule ''a'' ''x'' 0.5 None, 0.5)]"
  by (simp add: rank_rules_def relevance_of_def truthy_embedding_def sample_rule_def
      rule_confidence_def recency_boost_def default_settings_def Let_def
      sort_by_score_desc_def slice_to_def)

theorem rank_rules_spec_witness:
  "(\<exists>full. rank_rules default_settings 0
       [sample_rule ''a'' ''x'' 0.5 None, sample_rule ''b'' ''y'' 0.2 None,
        sample_rule ''c'' ''z'' 0.9 None, sample_rule ''d'' ''w'' 0.5 None]
       None 2 = Inr (take 2 full)
     \<and> sorted_wrt (\<lambda>p q. snd p \<ge> snd q) full
     \<and> length full = 3)
   \<and> rank_rules default_settings 0
       [sample_rule ''a'' ''x'' 0.5 None, sample_rule ''b'' ''y'' 0.2 None,
        sample_rule ''c'' ''z'' 0.9 None, sample_rule ''d'' ''w'' 0.5 None]
       None 2
     = Inr [(sample_rule ''c'' ''z'' 0.9 None, 0.9), (sample_rule ''a'' ''x'' 0.5 None, 0.5)]"
proof -
  let ?rules = "[sample_rule ''a'' ''x'' 0.5 None, sample_rule ''b'' ''y'' 0.2 None,
        sample_rule ''c'' ''z'' 0.9 None, sample_rule ''d'' ''w'' 0.5 None]"
  have h1: "\<forall>c. (None :: real list option) = Some c \<and> c \<noteq> []
              \<longrightarrow> embeddings_have_length (length c) ?rules"
    by simp
  have h2: "(0::int) \<le> 2" by simp
  obtain full where
    res: "rank_rules default_settings 0 ?rules None 2 = Inr (take (nat 2) full)"
    and perm: "mset (map fst full)
        = mset (filter (\<lambda>r. rule_confidence r \<ge> confidence_threshold default_settings) ?rules)"
    and sorted: "sorted_wrt (\<lambda>p q. snd p \<ge> snd q) full"
    using rank_rules_spec [OF h1 h2, of default_settings 0] by blast
  have "size (mset (map fst full)) = 3"
    unfolding perm
    by (simp add: sample_rule_def rule_confidence_def default_settings_def)
  then have len: "length full = 3" by simp
  have "\<exists>full. rank_rules default_settings 0 ?rules None 2 = Inr (take 2 full)
     \<and> sorted_wrt (\<lambda>p q. snd p \<ge> snd q) full \<and> length full = 3"
    using res sorted len by (intro exI [of _ full]) simp
  then show ?thesis using rank_rules_sample by blast
qed

section \<open>Selection under a token budget\<close>

lemma rule_tokens_nonneg: "0 \<le> rule_tokens r"
  by (simp add: rule_tokens_def)

lemma token_cost_Nil: "token_cost [] = 0"
  by (simp add: token_cost_def)

lemma token_cost_Cons: "token_cost (r # rs) = rule_tokens r + token_cost rs"
  by (simp add: token_cost_def)

lemma select_loop_prefix:
  "est \<le> M \<Longrightarrow>
   \<exists>k\<le>length ranked.
      select_loop M ranked sel est = sel @ map fst (take k ranked)
      \<and> (\<forall>j\<le>k. est + token_cost (map fst (take j ranked)) \<le> M)
      \<and> (k < length ranked \<longrightarrow> est + token_cost (map fst (take (Suc k) ranked)) > M)"
proof (induction ranked arbitrary: sel est)
  case Nil
  then show ?case by (simp add: token_cost_Nil)
next
  case (Cons p rest)
  obtain r s where p: "p = (r, s)" by (cases p)
  show ?case
  proof (cases "est + rule_tokens r > M")
    case True
    have "select_loop M (p # rest) sel est = sel @ map fst (take 0 (p # rest))"
      using True by (simp add: p)
    moreover have "\<forall>j\<le>0. est + token_cost (map fst (take j (p # rest))) \<le> M"
      using Cons.prems by (simp add: token_cost_Nil)
    moreover have "est + token_cost (map fst (take (Suc 0) (p # rest))) > M"
      using True by (simp add: p token_cost_Cons token_cost_Nil)
    ultimately show ?thesis by (intro exI [of _ 0]) simp
  next
    case False
    then have le: "est + rule_tokens r \<le> M" by simp
    from Cons.IH [OF le, of "sel @ [r]"] obtain k where k: "k \<le> length rest"
      and res: "select_loop M rest (sel @ [r]) (est + rule_tokens r)
                  = (sel @ [r]) @ map fst (take k rest)"
      and below: "\<forall>j\<le>k. est + rule_tokens r + token_cost (map fst (take j rest)) \<le> M"
      and above: "k < length rest \<longrightarrow>
                  est + rule_tokens r + token_cost (map fst (take (Suc k) rest)) > M"
      by blast
    have 1: "select_loop M (p # rest) sel est = sel @ map fst (take (Suc k) (p # rest))"
      using False res by (simp add: p)
    have 2: "\<forall>j\<le>Suc k. est + token_cost (map fst (take j (p # rest))) \<le> M"
    proof (intro allI impI)
      fix j assume j: "j \<le> Suc k"
      show "est + token_cost (map fst (take j (p # rest))) \<le> M"
      proof (cases j)
        case 0
        then show ?thesis using Cons.prems by (simp add: token_cost_Nil)
      next
        case (Suc j')
        then have "j' \<le> k" using j by simp
        then show ?thesis using below Suc by (simp add: p token_cost_Cons add.assoc)
      qed
    qed
    have 3: "Suc k < length (p # rest) \<longrightarrow>
             est + token_cost (map fst (take (Suc (Suc k)) (p # rest))) > M"
      using above by (simp add: p token_cost_Cons add.assoc)
    show ?thesis using k 1 2 3 by (intro exI [of _ "Suc k"]) simp
  qed
qed

text \<open>
  Claim C2. For a token budget \<open>max_tokens\<close>, a number that is not negative, whenever
  the ranking returns a list \<open>ranked\<close>, \<open>select_rules_for_prompt\<close> returns the rules of
  a prefix of \<open>ranked\<close>, in rank order; the estimated token cost of that prefix, and
  of every shorter one, is at most \<open>max_tokens\<close>; and unless the prefix is all of
  \<open>ranked\<close>, adding the next ranked rule would exceed the budget. So the selection
  stops at the first rule that does not fit and never skips ahead to a smaller one.
\<close>

theorem select_rules_for_prompt_budget:
  assumes "0 \<le> max_tokens"
    and "rank_rules cfg now rules ctx 10 = Inr ranked"
  shows "\<exists>k\<le>length ranked.
      select_rules_for_prompt cfg now rules ctx max_tokens = Inr (map fst (take k ranked))
      \<and> token_cost (map fst (take k ranked)) \<le> max_tokens
      \<and> (\<forall>j\<le>k. token_cost (map fst (take j ranked)) \<le> max_tokens)
      \<and> (k < length ranked \<longrightarrow> token_cost (map fst (take (Suc k) ranked)) > max_tokens)"
proof -
  from select_loop_prefix [OF assms(1), of ranked "[]"] obtain k where
    "k \<le> length ranked"
    "select_loop max_tokens ranked [] 0 = map fst (take k ranked)"
    "\<forall>j\<le>k. token_cost (map fst (take j ranked)) \<le> max_tokens"
    "k < length ranked \<longrightarrow> token_cost (map fst (take (Suc k) ranked)) > max_tokens"
    by auto
  then show ?thesis
    using assms(2) by (intro exI [of _ k]) (simp add: select_rules_for_prompt_def)
qed

lemma rank_rules_sample_budget:
  "rank_rules default_settings 0
     [sample_rule ''b'' ''use tabs'' 0.5 None, sample_rule ''a'' ''be brief'' 0.9 None,
      sample_rule ''c'' ''x'' 0.4 None]
     None 10
   = Inr [(sample_rule ''a'' ''be brief'' 0.9 None, 0.9),
          (sample_rule ''b'' ''use tabs'' 0.5 None, 0.5),
          (sample_rule ''c'' ''x'' 0.4 None, 0.4)]"
  by (simp add: rank_rules_def relevance_of_def truthy_embedding_def sample_rule_def
      rule_confidence_def recency_boost_def default_settings_def Let_def
      sort_by_score_desc_def slice_to_def)

theorem select_rules_for_prompt_budget_witness:
  "(\<exists>k\<le>3.
      select_rules_for_prompt default_settings 0
        [sample_rule ''b'' ''use tabs'' 0.5 None, sample_rule ''a'' ''be brief'' 0.9 None,
         sample_rule ''c'' ''x'' 0.4 None] None 3
      = Inr (map fst (take k
          [(sample_rule ''a'' ''be brief'' 0.9 None, 0.9 :: real),
           (sample_rule ''b'' ''use tabs'' 0.5 None, 0.5),
           (sample_rule ''c'' ''x'' 0.4 None, 0.4)]))
      \<and> token_cost (map fst (take k
          [(sample_rule ''a'' ''be brief'' 0.9 None, 0.9 :: real),
           (sample_rule ''b'' ''use tabs'' 0.5 None, 0.5),
           (sample_rule ''c'' ''x'' 0.4 None, 0.4)])) \<le> 3)
   \<and> select_rules_for_prompt default_settings 0
        [sample_rule ''b'' ''use tabs'' 0.5 None, sample_rule ''a'' ''be brief'' 0.9 None,
         sample_rule ''c'' ''x'' 0.4 None] None 3
      = Inr [sample_rule ''a'' ''be brief'' 0.9 None]
   \<and> token_cost [sample_rule ''a'' ''be brief'' 0.9 None] = 2
   \<and> token_cost [sample_rule ''a'' ''be brief'' 0.9 None, sample_rule ''c'' ''x'' 0.4 None] = 2"
proof -
  have h1: "(0::int) \<le> 3" by simp
  have "\<exists>k\<le>3.
      select_rules_for_prompt default_settings 0
        [sample_rule ''b'' ''use tabs'' 0.5 None, sample_rule ''a'' ''be brief'' 0.9 None,
         sample_rule ''c'' ''x'' 0.4 None] None 3
      = Inr (map fst (take k
          [(sample_rule ''a'' ''be brief'' 0.9 None, 0.9 :: real),
           (sample_rule ''b'' ''use tabs'' 0.5 None, 0.5),
           (sample_rule ''c'' ''x'' 0.4 None, 0.4)]))
      \<and> token_cost (map fst (take k
          [(sample_rule ''a'' ''be brief'' 0.9 None, 0.9 :: real),
           (sample_rule ''b'' ''use tabs'' 0.5 None, 0.5),
           (sample_rule ''c'' ''x'' 0.4 None, 0.4)])) \<le> 3"
  proof -
    let ?ranked = "[(sample_rule ''a'' ''be brief'' 0.9 None, 0.9 :: real),
           (sample_rule ''b'' ''use tabs'' 0.5 None, 0.5),
           (sample_rule ''c'' ''x'' 0.4 None, 0.4)]"
    obtain k where "k \<le> length ?ranked"
      and "select_rules_for_prompt default_settings 0
        [sample_rule ''b'' ''use tabs'' 0.5 None, sample_rule ''a'' ''be brief'' 0.9 None,
         sample_rule ''c'' ''x'' 0.4 None] None 3 = Inr (map fst (take k ?ranked))"
      and "token_cost (map fst (take k ?ranked)) \<le> 3"
      using select_rules_for_prompt_budget [OF h1 rank_rules_sample_budget] by blast
    then show ?thesis by (intro exI [of _ k]) simp
  qed
  moreover have "select_rules_for_prompt default_settings 0
        [sample_rule ''b'' ''use tabs'' 0.5 None, sample_rule ''a'' ''be brief'' 0.9 None,
         sample_rule ''c'' ''x'' 0.4 None] None 3
      = Inr [sample_rule ''a'' ''be brief'' 0.9 None]"
    unfolding select_rules_for_prompt_def rank_rules_sample_budget
    by (simp add: rule_tokens_def sample_rule_def)
  moreover have "token_cost [sample_rule ''a'' ''be brief'' 0.9 None] = 2"
    by (simp add: token_cost_def rule_tokens_def sample_rule_def)
  moreover have "token_cost [sample_rule ''a'' ''be brief'' 0.9 None,
      sample_rule ''c'' ''x'' 0.4 None] = 2"
    by (simp add: token_cost_def rule_tokens_def sample_rule_def)
  ultimately show ?thesis by blast
qed

section \<open>Decay sweep\<close>

lemma decay_loop_settled:
  "list_all (settled cfg now) rows \<Longrightarrow>
   decay_loop cfg now rows acc = acc\<lparr>rows_done := rows_done acc @ rows\<rparr>"
proof (induction rows arbitrary: acc)
  case Nil
  show ?case by simp
next
  case (Cons r rs)
  then have r: "settled cfg now r" and rs: "list_all (settled cfg now) rs" by simp_all
  show ?case
  proof (cases "row_status r = Active")
    case False
    then show ?thesis by (simp add: Cons.IH [OF rs])
  next
    case True
    then show ?thesis
      using r by (simp add: settled_def Let_def Cons.IH [OF rs])
  qed
qed

lemma decay_loop_rows:
  "rows_done (decay_loop cfg now rows acc) = rows_done acc @ map (decayed_row cfg now) rows"
proof (induction rows arbitrary: acc)
  case Nil
  show ?case by simp
next
  case (Cons r rs)
  show ?case
    by (simp add: Cons.IH decayed_row_def empty_sweep_def Let_def)
qed

lemma settled_decayed_row: "settled cfg now (decayed_row cfg now r)"
  by (simp add: settled_def decayed_row_def empty_sweep_def Let_def should_archive_rule_def)

lemma invalidate_no_users: "invalidate_users {} cache = cache"
  by (simp add: invalidate_users_def)

text \<open>
  Claim C5. The decay sweep is idempotent: a second sweep at the same time over the
  store the first one left changes no row (no confidence, no status), adds no audit
  event, invalidates no cache entry, and counts no rule as decayed or archived.
\<close>

theorem process_decay_idempotent:
  "process_decay cfg now (fst (process_decay cfg now st)) = (fst (process_decay cfg now st), 0, 0)"
proof -
  define rows where "rows = map (decayed_row cfg now) (rules_table st)"
  have first: "rules_table (fst (process_decay cfg now st)) = rows"
    by (simp add: process_decay_def Let_def decay_loop_rows rows_def empty_sweep_def)
  have "list_all (settled cfg now) rows"
    by (simp add: rows_def list_all_iff settled_decayed_row)
  then have "decay_loop cfg now rows empty_sweep = empty_sweep\<lparr>rows_done := rows\<rparr>"
    by (simp add: decay_loop_settled empty_sweep_def)
  then show ?thesis
    unfolding process_decay_def [of cfg now "fst (process_decay cfg now st)"] first
    by (simp add: Let_def empty_sweep_def invalidate_no_users first [symmetric]
        process_decay_def [of cfg now st])
qed


lemma stale_confidence:
  "calculate_confidence default_settings eight_weeks (1 / 2) 0 (Some 0) None = 1 / 10"
  by (simp add: calculate_confidence_def default_settings_def eight_weeks_def
      microseconds_per_day_def timedelta_days_def Let_def)

lemma fresh_confidence:
  "calculate_confidence default_settings eight_weeks (1 / 2) 1 None None = 3 / 5"
  by (simp add: calculate_confidence_def default_settings_def Let_def)

lemma default_archive_threshold: "archive_threshold default_settings = 1 / 5"
  by (simp add: default_settings_def)

lemma sample_sweep:
  "process_decay default_settings eight_weeks sample_store =
     (\<lparr>rules_table =
         [stale_row\<lparr>row_confidence := 0.1, row_status := Archived,
                    row_updated_at := eight_weeks\<rparr>,
          fresh_row\<lparr>row_confidence := 0.6, row_updated_at := eight_weeks\<rparr>],
       audit_log = [Rule_decayed 7 1 0.5 0.1, Rule_archived 7 1, Rule_decayed 8 2 0.5 0.6],
       rule_cache = (\<lambda>u. None)\<rparr>, 2, 1)"
  by (simp add: process_decay_def sample_store_def stale_row_def fresh_row_def
      empty_sweep_def Let_def stale_confidence fresh_confidence should_archive_rule_def
      default_archive_threshold invalidate_users_def fun_eq_iff)

theorem process_decay_idempotent_witness:
  "process_decay default_settings eight_weeks
     (fst (process_decay default_settings eight_weeks sample_store))
   = (fst (process_decay default_settings eight_weeks sample_store), 0, 0)
   \<and> map row_status (rules_table (fst (process_decay default_settings eight_weeks sample_store)))
       = [Archived, Active]
   \<and> map row_confidence (rules_table (fst (process_decay default_settings eight_weeks sample_store)))
       = [0.1, 0.6]"
  using process_decay_idempotent [of default_settings eight_weeks sample_store]
  by (simp add: sample_sweep stale_row_def fresh_row_def)

text \<open>
  Claim C6 asks that every user with a rule archived by the sweep has the cached
  snapshot invalidated, whether or not the confidence changed. The sweep adds a user
  to \<open>users_affected\<close> in the confidence branch only: on \<open>stale_store\<close> the recomputed
  confidence equals the stored \<open>0.1\<close>, the rule is archived, one rule is counted as
  archived, and the cache still holds the user's snapshot, in which the rule is active.
\<close>

theorem process_decay_archive_keeps_cache:
  "process_decay default_settings eight_weeks stale_store =
     (\<lparr>rules_table = [stale_row\<lparr>row_status := Archived, row_updated_at := eight_weeks\<rparr>],
       audit_log = [Rule_archived 7 1],
       rule_cache = rule_cache stale_store\<rparr>, 0, 1)
   \<and> rule_cache stale_store 7 = Some [stale_row]
   \<and> row_status stale_row = Active"
  by (simp add: process_decay_def stale_store_def stale_row_def
      empty_sweep_def Let_def stale_confidence should_archive_rule_def
      default_archive_threshold invalidate_users_def fun_eq_iff)

section \<open>Correction pipeline\<close>

lemma is_substring_iff: "is_substring kw s \<longleftrightarrow> sublist kw s"
  by (induction s) (auto simp: sublist_Cons_right)

lemma keyword_heuristic_value:
  "keyword_heuristic msg =
     (if (\<exists>kw\<in>set correction_keywords. sublist kw (lower msg))
      then (JBool True, JStr ''style'', JNum 0.5)
      else (JBool False, JStr ''none'', JNum 0))"
  by (simp add: keyword_heuristic_def Let_def list_ex_iff is_substring_iff)

lemma detect_correction_fallback:
  "extract_json_response sv (Correction_detection_prompt (take 1000 prev) msg) = Inl e
   \<Longrightarrow> detect_correction sv msg prev = keyword_heuristic msg"
  by (simp add: detect_correction_def Let_def)

lemma detect_correction_not_dict:
  "extract_json_response sv (Correction_detection_prompt (take 1000 prev) msg) = Inr j
   \<Longrightarrow> \<forall>kvs. j \<noteq> JObj kvs
   \<Longrightarrow> detect_correction sv msg prev = keyword_heuristic msg"
  by (cases j) (simp_all add: detect_correction_def Let_def dict_get_def)

lemma extract_rule_service_fails:
  "extract_json_response sv (Rule_extraction_prompt (take 1000 prev) msg) = Inl e
   \<Longrightarrow> extract_rule sv now msg prev = None"
  by (simp add: extract_rule_def Let_def)

lemma extract_rule_not_dict:
  "extract_json_response sv (Rule_extraction_prompt (take 1000 prev) msg) = Inr j
   \<Longrightarrow> \<forall>kvs. j \<noteq> JObj kvs
   \<Longrightarrow> extract_rule sv now msg prev = None"
  by (cases j) (simp_all add: extract_rule_def Let_def dict_get_def)

lemma extract_rule_invalid:
  "extract_json_response sv (Rule_extraction_prompt (take 1000 prev) msg) = Inr (JObj kvs)
   \<Longrightarrow> map_of kvs ''is_valid'' = Some v \<Longrightarrow> \<not> truthy v
   \<Longrightarrow> extract_rule sv now msg prev = None"
  by (simp add: extract_rule_def Let_def dict_get_def)

lemma extract_rule_no_text:
  "extract_json_response sv (Rule_extraction_prompt (take 1000 prev) msg) = Inr (JObj kvs)
   \<Longrightarrow> map_of kvs ''rule'' = None \<or> (\<exists>v. map_of kvs ''rule'' = Some v \<and> \<not> truthy v)
   \<Longrightarrow> extract_rule sv now msg prev = None"
  by (auto simp: extract_rule_def Let_def dict_get_def split: option.splits)

lemma extract_rule_success:
  "extract_json_response sv (Rule_extraction_prompt (take 1000 prev) msg) = Inr (JObj kvs)
   \<Longrightarrow> truthy (case map_of kvs ''is_valid'' of None \<Rightarrow> JBool True | Some w \<Rightarrow> w)
   \<Longrightarrow> map_of kvs ''rule'' = Some v \<Longrightarrow> truthy v
   \<Longrightarrow> extract_rule sv now msg prev =
        Some \<lparr>rd_content = v,
              rd_category = (case map_of kvs ''category'' of None \<Rightarrow> JStr ''style'' | Some c \<Rightarrow> c),
              rd_reasoning = (case map_of kvs ''reasoning'' of None \<Rightarrow> JStr [] | Some c \<Rightarrow> c),
              rd_original_correction = msg, rd_created_at = now, rd_embedding = None\<rparr>"
  by (simp add: extract_rule_def Let_def dict_get_def)

lemma process_correction_failed:
  "extract_rule sv now msg prev = None
   \<Longrightarrow> process_correction cfg sv now msg prev rules
        = Extraction_failed ''Could not extract a clear rule from this correction''"
  by (simp add: process_correction_def)

lemma process_correction_duplicate:
  "extract_rule sv now msg prev = Some rd
   \<Longrightarrow> generate_embedding sv 0 (rd_content rd) = Inr emb
   \<Longrightarrow> find_similar_rule cfg emb rules None = Inr (Some dup)
   \<Longrightarrow> process_correction cfg sv now msg prev rules
        = Duplicate_found dup ''This preference already exists and has been reinforced''"
  by (simp add: process_correction_def check_duplicate_rule_def)

lemma process_correction_created:
  "extract_rule sv now msg prev = Some rd
   \<Longrightarrow> check_duplicate_rule cfg sv 0 (rd_content rd) rules = None
   \<Longrightarrow> process_correction cfg sv now msg prev rules =
        Rule_created (rd\<lparr>rd_embedding :=
          (case generate_embedding sv 1 (rd_content rd) of Inl e \<Rightarrow> None | Inr v \<Rightarrow> Some v)\<rparr>)"
  by (simp add: process_correction_def split: sum.splits)

lemma process_correction_status:
  "status (process_correction cfg sv now msg prev rules) = ''extraction_failed''
   \<or> status (process_correction cfg sv now msg prev rules) = ''duplicate_found''
   \<or> status (process_correction cfg sv now msg prev rules) = ''rule_created''"
  by (cases "process_correction cfg sv now msg prev rules") simp_all


text \<open>
  Claim C4. Every fallible call of the pipeline is handled, and the result is always
  one of the three classified outcomes. When the correction-detection call fails,
  \<open>detect_correction\<close> answers by the keyword heuristic on the lower-cased message:
  \<open>(true, "style", 0.5)\<close> when a keyword occurs in it, \<open>(false, "none", 0.0)\<close>
  otherwise. \<open>process_correction\<close> returns \<open>extraction_failed\<close> when the extraction
  call fails, when the answer marks the input invalid, and when it holds no rule text;
  an answer with a rule text and not marked invalid gives a rule draft; with a draft,
  \<open>duplicate_found\<close> is returned (and nothing more is done) when the duplicate check
  finds a similar rule, and when it finds none a failure of the embedding call still
  gives \<open>rule_created\<close>, with no embedding.
\<close>

theorem correction_pipeline_classified:
  "((\<exists>e. extract_json_response sv (Correction_detection_prompt (take 1000 prev) msg) = Inl e)
      \<longrightarrow> detect_correction sv msg prev =
            (if (\<exists>kw\<in>set correction_keywords. sublist kw (lower msg))
             then (JBool True, JStr ''style'', JNum 0.5)
             else (JBool False, JStr ''none'', JNum 0)))
   \<and> ((\<exists>e. extract_json_response sv (Rule_extraction_prompt (take 1000 prev) msg) = Inl e)
      \<longrightarrow> status (process_correction cfg sv now msg prev rules) = ''extraction_failed'')
   \<and> (\<forall>kvs. extract_json_response sv (Rule_extraction_prompt (take 1000 prev) msg) = Inr (JObj kvs)
          \<and> ((\<exists>v. map_of kvs ''is_valid'' = Some v \<and> \<not> truthy v)
             \<or> map_of kvs ''rule'' = None
             \<or> (\<exists>v. map_of kvs ''rule'' = Some v \<and> \<not> truthy v))
      \<longrightarrow> status (process_correction cfg sv now msg prev rules) = ''extraction_failed'')
   \<and> (\<forall>kvs v. extract_json_response sv (Rule_extraction_prompt (take 1000 prev) msg) = Inr (JObj kvs)
          \<and> truthy (case map_of kvs ''is_valid'' of None \<Rightarrow> JBool True | Some w \<Rightarrow> w)
          \<and> map_of kvs ''rule'' = Some v \<and> truthy v
      \<longrightarrow> (\<exists>rd. extract_rule sv now msg prev = Some rd \<and> rd_content rd = v
                \<and> rd_original_correction rd = msg))
   \<and> (\<forall>rd emb dup. extract_rule sv now msg prev = Some rd
          \<and> generate_embedding sv 0 (rd_content rd) = Inr emb
          \<and> find_similar_rule cfg emb rules None = Inr (Some dup)
      \<longrightarrow> process_correction cfg sv now msg prev rules
            = Duplicate_found dup ''This preference already exists and has been reinforced'')
   \<and> (\<forall>rd e. extract_rule sv now msg prev = Some rd
          \<and> check_duplicate_rule cfg sv 0 (rd_content rd) rules = None
          \<and> generate_embedding sv 1 (rd_content rd) = Inl e
      \<longrightarrow> process_correction cfg sv now msg prev rules = Rule_created (rd\<lparr>rd_embedding := None\<rparr>))
   \<and> (status (process_correction cfg sv now msg prev rules) = ''extraction_failed''
      \<or> status (process_correction cfg sv now msg prev rules) = ''duplicate_found''
      \<or> status (process_correction cfg sv now msg prev rules) = ''rule_created'')"
proof (intro conjI allI impI)
  assume "\<exists>e. extract_json_response sv (Correction_detection_prompt (take 1000 prev) msg) = Inl e"
  then show "detect_correction sv msg prev =
            (if (\<exists>kw\<in>set correction_keywords. sublist kw (lower msg))
             then (JBool True, JStr ''style'', JNum 0.5)
             else (JBool False, JStr ''none'', JNum 0))"
    using detect_correction_fallback keyword_heuristic_value by metis
next
  assume "\<exists>e. extract_json_response sv (Rule_extraction_prompt (take 1000 prev) msg) = Inl e"
  then have "extract_rule sv now msg prev = None"
    using extract_rule_service_fails by blast
  then show "status (process_correction cfg sv now msg prev rules) = ''extraction_failed''"
    by (simp add: process_correction_failed)
next
  fix kvs
  assume "extract_json_response sv (Rule_extraction_prompt (take 1000 prev) msg) = Inr (JObj kvs)
          \<and> ((\<exists>v. map_of kvs ''is_valid'' = Some v \<and> \<not> truthy v)
             \<or> map_of kvs ''rule'' = None
             \<or> (\<exists>v. map_of kvs ''rule'' = Some v \<and> \<not> truthy v))"
  then have "extract_rule sv now msg prev = None"
    using extract_rule_invalid extract_rule_no_text by blast
  then show "status (process_correction cfg sv now msg prev rules) = ''extraction_failed''"
    by (simp add: process_correction_failed)
next
  fix kvs v
  assume "extract_json_response sv (Rule_extraction_prompt (take 1000 prev) msg) = Inr (JObj kvs)
          \<and> truthy (case map_of kvs ''is_valid'' of None \<Rightarrow> JBool True | Some w \<Rightarrow> w)
          \<and> map_of kvs ''rule'' = Some v \<and> truthy v"
  then show "\<exists>rd. extract_rule sv now msg prev = Some rd \<and> rd_content rd = v
                \<and> rd_original_correction rd = msg"
    by (simp add: extract_rule_success)
next
  fix rd emb dup
  assume "extract_rule sv now msg prev = Some rd
          \<and> generate_embedding sv 0 (rd_content rd) = Inr emb
          \<and> find_similar_rule cfg emb rules None = Inr (Some dup)"
  then show "process_correction cfg sv now msg prev rules
            = Duplicate_found dup ''This preference already exists and has been reinforced''"
    by (simp add: process_correction_duplicate)
next
  fix rd e
  assume "extract_rule sv now msg prev = Some rd
          \<and> check_duplicate_rule cfg sv 0 (rd_content rd) rules = None
          \<and> generate_embedding sv 1 (rd_content rd) = Inl e"
  then show "process_correction cfg sv now msg prev rules = Rule_created (rd\<lparr>rd_embedding := None\<rparr>)"
    by (simp add: process_correction_created)
next
  show "status (process_correction cfg sv now msg prev rules) = ''extraction_failed''
      \<or> status (process_correction cfg sv now msg prev rules) = ''duplicate_found''
      \<or> status (process_correction cfg sv now msg prev rules) = ''rule_created''"
    by (rule process_correction_status)
qed


lemma sample_extract_rule:
  "extract_rule (sample_services sample_answer emb) 5 ''no bullets please'' ''ok'' =
     Some \<lparr>rd_content = JStr ''Avoid bullet points'', rd_category = JStr ''formatting'',
           rd_reasoning = JStr ''stated preference'',
           rd_original_correction = ''no bullets please'', rd_created_at = 5,
           rd_embedding = None\<rparr>"
  by (simp add: extract_rule_def sample_services_def sample_answer_def dict_get_def Let_def)

lemma lower_dont: "lower ''Please DON'T do that'' = ''please don't do that''"
  by (simp add: lower_def lower_char_def)

lemma lower_hello: "lower ''Hello there'' = ''hello there''"
  by (simp add: lower_def lower_char_def)

lemma match_dont: "list_ex (\<lambda>kw. is_substring kw ''please don't do that'') correction_keywords"
  by (simp add: correction_keywords_def)

lemma match_hello: "\<not> list_ex (\<lambda>kw. is_substring kw ''hello there'') correction_keywords"
  by (simp add: correction_keywords_def)

lemma keyword_match_dont:
  "\<exists>kw\<in>set correction_keywords. sublist kw (lower ''Please DON'T do that'')"
  using match_dont unfolding list_ex_iff is_substring_iff lower_dont .

lemma keyword_match_hello:
  "\<not> (\<exists>kw\<in>set correction_keywords. sublist kw (lower ''Hello there''))"
  using match_hello unfolding list_ex_iff is_substring_iff lower_hello .

lemma failing_extract: "\<exists>e. extract_json_response failing_services p = Inl e"
  by (simp add: failing_services_def)

theorem correction_pipeline_classified_witness:
  "detect_correction failing_services ''Please DON'T do that'' ''ok''
     = (JBool True, JStr ''style'', JNum 0.5)
   \<and> detect_correction failing_services ''Hello there'' ''ok''
     = (JBool False, JStr ''none'', JNum 0)
   \<and> status (process_correction default_settings failing_services 5 ''no bullets please'' ''ok'' [])
     = ''extraction_failed''
   \<and> status (process_correction default_settings
        (sample_services (JObj [(''rule'', JStr ''Avoid bullet points''), (''is_valid'', JBool False)])
           (\<lambda>n. Inr [3, 4]))
        5 ''no bullets please'' ''ok'' [])
     = ''extraction_failed''
   \<and> process_correction default_settings (sample_services sample_answer (\<lambda>n. Inr [3, 4]))
        5 ''no bullets please'' ''ok'' [sample_rule ''c'' ''z'' 0.5 (Some [3, 4])]
     = Duplicate_found (sample_rule ''c'' ''z'' 0.5 (Some [3, 4]))
         ''This preference already exists and has been reinforced''
   \<and> process_correction default_settings
        (sample_services sample_answer (\<lambda>n. if n = 0 then Inr [3, 4] else Inl ServiceError))
        5 ''no bullets please'' ''ok'' [sample_rule ''b'' ''y'' 0.5 (Some [1, 0])]
     = Rule_created
         \<lparr>rd_content = JStr ''Avoid bullet points'', rd_category = JStr ''formatting'',
          rd_reasoning = JStr ''stated preference'',
          rd_original_correction = ''no bullets please'', rd_created_at = 5,
          rd_embedding = None\<rparr>"
proof -
  note T = correction_pipeline_classified
  have "detect_correction failing_services ''Please DON'T do that'' ''ok'' =
      (if (\<exists>kw\<in>set correction_keywords. sublist kw (lower ''Please DON'T do that''))
       then (JBool True, JStr ''style'', JNum 0.5)
       else (JBool False, JStr ''none'', JNum 0))"
    by (rule T [THEN conjunct1, THEN mp, OF failing_extract])
  then have 1: "detect_correction failing_services ''Please DON'T do that'' ''ok''
     = (JBool True, JStr ''style'', JNum 0.5)"
    by (simp only: keyword_match_dont if_True)
  have "detect_correction failing_services ''Hello there'' ''ok'' =
      (if (\<exists>kw\<in>set correction_keywords. sublist kw (lower ''Hello there''))
       then (JBool True, JStr ''style'', JNum 0.5)
       else (JBool False, JStr ''none'', JNum 0))"
    by (rule T [THEN conjunct1, THEN mp, OF failing_extract])
  then have 2: "detect_correction failing_services ''Hello there'' ''ok''
     = (JBool False, JStr ''none'', JNum 0)"
    by (simp only: keyword_match_hello if_False)
  have 3: "status (process_correction default_settings failing_services 5
      ''no bullets please'' ''ok'' []) = ''extraction_failed''"
    by (rule T [THEN conjunct2, THEN conjunct1, THEN mp, OF failing_extract])
  let ?invalid = "[(''rule'', JStr ''Avoid bullet points''), (''is_valid'', JBool False)]"
  have h4: "extract_json_response (sample_services (JObj ?invalid) (\<lambda>n. Inr [3, 4]))
          (Rule_extraction_prompt (take 1000 ''ok'') ''no bullets please'') = Inr (JObj ?invalid)
        \<and> ((\<exists>v. map_of ?invalid ''is_valid'' = Some v \<and> \<not> truthy v)
             \<or> map_of ?invalid ''rule'' = None
             \<or> (\<exists>v. map_of ?invalid ''rule'' = Some v \<and> \<not> truthy v))"
    by (simp add: sample_services_def)
  have 4: "status (process_correction default_settings
        (sample_services (JObj ?invalid) (\<lambda>n. Inr [3, 4]))
        5 ''no bullets please'' ''ok'' []) = ''extraction_failed''"
    by (rule T [THEN conjunct2, THEN conjunct2, THEN conjunct1, rule_format, OF h4])
  let ?rd = "\<lparr>rd_content = JStr ''Avoid bullet points'', rd_category = JStr ''formatting'',
           rd_reasoning = JStr ''stated preference'',
           rd_original_correction = ''no bullets please'', rd_created_at = 5,
           rd_embedding = None\<rparr>"
  let ?dup = "sample_rule ''c'' ''z'' 0.5 (Some [3, 4])"
  have sim: "find_similar_rule default_settings [3, 4] [?dup] None = Inr (Some ?dup)"
    by (simp add: find_similar_rule_def threshold_or_default_def
          default_settings_def sample_rule_def truthy_embedding_def cos_34_34)
  have h5: "extract_rule (sample_services sample_answer (\<lambda>n. Inr [3, 4])) 5
          ''no bullets please'' ''ok'' = Some ?rd
        \<and> generate_embedding (sample_services sample_answer (\<lambda>n. Inr [3, 4])) 0 (rd_content ?rd)
            = Inr [3, 4]
        \<and> find_similar_rule default_settings [3, 4] [?dup] None = Inr (Some ?dup)"
    using sample_extract_rule sim by (simp add: sample_services_def)
  have 5: "process_correction default_settings (sample_services sample_answer (\<lambda>n. Inr [3, 4]))
        5 ''no bullets please'' ''ok'' [?dup]
     = Duplicate_found ?dup ''This preference already exists and has been reinforced''"
    by (rule T [THEN conjunct2, THEN conjunct2, THEN conjunct2, THEN conjunct2, THEN conjunct1,
          rule_format, OF h5])
  let ?sv = "sample_services sample_answer (\<lambda>n. if n = 0 then Inr [3, 4] else Inl ServiceError)"
  have nodup: "check_duplicate_rule default_settings ?sv 0 (JStr ''Avoid bullet points'')
             [sample_rule ''b'' ''y'' 0.5 (Some [1, 0])] = None"
    by (simp add: sample_services_def check_duplicate_rule_def find_similar_rule_def
          threshold_or_default_def default_settings_def sample_rule_def truthy_embedding_def
          cos_34_10)
  have h6: "extract_rule ?sv 5 ''no bullets please'' ''ok'' = Some ?rd
        \<and> check_duplicate_rule default_settings ?sv 0 (rd_content ?rd)
             [sample_rule ''b'' ''y'' 0.5 (Some [1, 0])] = None
        \<and> generate_embedding ?sv 1 (rd_content ?rd) = Inl ServiceError"
    using sample_extract_rule nodup by (simp add: sample_services_def)
  have "process_correction default_settings ?sv 5 ''no bullets please'' ''ok''
        [sample_rule ''b'' ''y'' 0.5 (Some [1, 0])] = Rule_created (?rd\<lparr>rd_embedding := None\<rparr>)"
    by (rule T [THEN conjunct2, THEN conjunct2, THEN conjunct2, THEN conjunct2, THEN conjunct2,
          THEN conjunct1, rule_format, OF h6])
  then have 6: "process_correction default_settings ?sv 5 ''no bullets please'' ''ok''
        [sample_rule ''b'' ''y'' 0.5 (Some [1, 0])] = Rule_created ?rd"
    by simp
  show ?thesis using 1 2 3 4 5 6 by (intro conjI)
qed

end
